theory Spec2Isabelle
  imports Complex_Main
begin

section \<open>Text primitives of the host language\<close>

text \<open>
  The checker of \<^verbatim>\<open>src/gcode.py\<close> works on Python strings. A line is modelled as a
  \<^typ>\<open>string\<close> of ASCII characters: \<^verbatim>\<open>str.upper\<close>, \<^verbatim>\<open>str.lower\<close>, \<^verbatim>\<open>str.strip\<close> and the
  class \<^verbatim>\<open>\d\<close> of the regular expressions are given their ASCII meaning, and every other
  character is left alone by the case conversions, is no white space and is no digit.
\<close>

definition is_digit :: "char \<Rightarrow> bool" where
  "is_digit c = (c \<in> set ''0123456789'')"

definition is_space :: "char \<Rightarrow> bool" where
  \<comment> \<open>\<^verbatim>\<open>str.isspace\<close> on ASCII: TAB, LF, VT, FF, CR, FS, GS, RS, US and the blank.\<close>
  "is_space c = (c \<in> set [CHR 0x09, CHR 0x0A, CHR 0x0B, CHR 0x0C, CHR 0x0D,
                            CHR 0x1C, CHR 0x1D, CHR 0x1E, CHR 0x1F, CHR 0x20])"

definition upper_char :: "char \<Rightarrow> char" where
  "upper_char c =
     (case map_of (zip ''abcdefghijklmnopqrstuvwxyz'' ''ABCDEFGHIJKLMNOPQRSTUVWXYZ'') c of
        None \<Rightarrow> c | Some u \<Rightarrow> u)"

definition lower_char :: "char \<Rightarrow> char" where
  "lower_char c =
     (case map_of (zip ''ABCDEFGHIJKLMNOPQRSTUVWXYZ'' ''abcdefghijklmnopqrstuvwxyz'') c of
        None \<Rightarrow> c | Some l \<Rightarrow> l)"

definition upper :: "string \<Rightarrow> string" where
  "upper s = map upper_char s"

definition lower :: "string \<Rightarrow> string" where
  "lower s = map lower_char s"

definition strip :: "string \<Rightarrow> string" where
  "strip s = rev (dropWhile is_space (rev (dropWhile is_space s)))"

definition startswith :: "string \<Rightarrow> string \<Rightarrow> bool" where
  \<comment> \<open>\<^verbatim>\<open>s.startswith(p)\<close>\<close>
  "startswith s p = (take (length p) s = p)"

fun contains :: "string \<Rightarrow> string \<Rightarrow> bool" where
  \<comment> \<open>\<^verbatim>\<open>sub in s\<close> on strings: \<open>sub\<close> occurs somewhere in \<open>s\<close>.\<close>
  "contains [] sub = (sub = [])"
| "contains (c # cs) sub = (startswith (c # cs) sub \<or> contains cs sub)"

subsection \<open>The regular expressions of the checker\<close>

text \<open>
  Each pattern of the source is translated into the function that returns what
  \<^verbatim>\<open>re.match\<close> or \<^verbatim>\<open>re.search\<close> returns for it. \<^verbatim>\<open>re.match\<close> anchors at the first
  character; \<^verbatim>\<open>re.search\<close> takes the leftmost position at which the pattern matches, and
  at that position the quantifiers are greedy and give back characters only when the rest
  of the pattern would fail otherwise.
\<close>

definition match_letter_digits :: "string \<Rightarrow> string \<Rightarrow> bool" where
  \<comment> \<open>\<^verbatim>\<open>re.match(r'^[L]\d+', s)\<close> for a set \<open>L\<close> of letters, as a truth value\<close>
  "match_letter_digits letters s =
     (case s of c # d # _ \<Rightarrow> c \<in> set letters \<and> is_digit d | _ \<Rightarrow> False)"

definition match_letter :: "string \<Rightarrow> string \<Rightarrow> bool" where
  \<comment> \<open>\<^verbatim>\<open>re.match(r'^[L]', s)\<close> as a truth value\<close>
  "match_letter letters s = (case s of c # _ \<Rightarrow> c \<in> set letters | [] \<Rightarrow> False)"

fun search_letter_digits :: "char \<Rightarrow> string \<Rightarrow> string option" where
  \<comment> \<open>\<^verbatim>\<open>re.search(r'L(\d+)', s)\<close>: the group of the leftmost match, \<open>None\<close> without a match\<close>
  "search_letter_digits l [] = None"
| "search_letter_digits l (c # cs) =
     (if c = l \<and> takeWhile is_digit cs \<noteq> [] then Some (takeWhile is_digit cs)
      else search_letter_digits l cs)"

definition match_unsigned :: "string \<Rightarrow> string option" where
  \<comment> \<open>\<^verbatim>\<open>\d*\.?\d+\<close> at the start of \<open>s\<close>. The greedy \<^verbatim>\<open>\d*\<close> takes the whole run of
      digits; a dot is taken when a digit follows it; otherwise \<^verbatim>\<open>\d*\<close> gives its last
      digit back to \<^verbatim>\<open>\d+\<close>, so that the run of digits itself is the match, if it is not
      empty.\<close>
  "match_unsigned s =
     (let ds = takeWhile is_digit s; r = dropWhile is_digit s in
      case r of
        c # r' \<Rightarrow>
          if c = CHR ''.'' \<and> takeWhile is_digit r' \<noteq> []
          then Some (ds @ CHR ''.'' # takeWhile is_digit r')
          else if ds \<noteq> [] then Some ds else None
      | [] \<Rightarrow> if ds \<noteq> [] then Some ds else None)"

definition match_signed :: "string \<Rightarrow> string option" where
  \<comment> \<open>\<^verbatim>\<open>[+-]?\d*\.?\d+\<close> at the start of \<open>s\<close>. Without the sign the rest of the pattern
      would have to start at the sign character, which is neither a digit nor a dot, so
      giving the sign back never yields a match.\<close>
  "match_signed s =
     (case s of
        c # r \<Rightarrow>
          if c = CHR ''+'' \<or> c = CHR ''-''
          then map_option (\<lambda>m. c # m) (match_unsigned r)
          else match_unsigned s
      | [] \<Rightarrow> None)"

fun search_axis :: "char \<Rightarrow> string \<Rightarrow> string option" where
  \<comment> \<open>\<^verbatim>\<open>re.search(f'{axis}([+-]?\d*\.?\d+)', s)\<close>: the group of the leftmost match\<close>
  "search_axis a [] = None"
| "search_axis a (c # cs) =
     (if c = a then (case match_signed cs of Some g \<Rightarrow> Some g | None \<Rightarrow> search_axis a cs)
      else search_axis a cs)"

fun search_feed :: "string \<Rightarrow> string option" where
  \<comment> \<open>\<^verbatim>\<open>re.search(r'F(\d*\.?\d+)', s)\<close>: the group of the leftmost match\<close>
  "search_feed [] = None"
| "search_feed (c # cs) =
     (if c = CHR ''F'' then (case match_unsigned cs of Some g \<Rightarrow> Some g | None \<Rightarrow> search_feed cs)
      else search_feed cs)"

subsection \<open>Numbers\<close>

text \<open>
  \<^verbatim>\<open>float(text)\<close> is applied only to texts of the shape \<^verbatim>\<open>[+-]?\d*\.?\d+\<close>. It is
  modelled by the exact value of the decimal numeral; the rounding to a binary double is
  not part of the model.
\<close>

definition digit_value :: "char \<Rightarrow> nat" where
  "digit_value c = (of_char c :: nat) - 48"

definition digits_value :: "string \<Rightarrow> nat" where
  "digits_value ds = foldl (\<lambda>n d. 10 * n + digit_value d) 0 ds"

definition unsigned_value :: "string \<Rightarrow> real" where
  "unsigned_value s =
     (let ip = takeWhile is_digit s; fp = drop 1 (dropWhile is_digit s) in
      real (digits_value ip) + real (digits_value fp) / 10 ^ length fp)"

definition float_py :: "string \<Rightarrow> real" where
  "float_py s =
     (case s of
        c # r \<Rightarrow>
          if c = CHR ''-'' then - unsigned_value r
          else if c = CHR ''+'' then unsigned_value r
          else unsigned_value s
      | [] \<Rightarrow> 0)"

section \<open>The checker\<close>

subsection \<open>State\<close>

text \<open>
  A diagnostic is a formatted text. The places where the source formats a floating-point
  number into the text are kept as a \<open>Flt\<close> piece holding the number, since the decimal
  rendering of a double is not part of the model; all other text is literal.
\<close>

datatype piece = Txt string | Flt real

type_synonym msg = "piece list"

text \<open>
  The fields of \<^verbatim>\<open>GCodeChecker.__init__\<close>. The dictionary \<^verbatim>\<open>subprograms\<close> is never read
  or written after its creation and is left out; \<^verbatim>\<open>supported_extensions\<close> is a constant.
\<close>

record GCodeChecker =
  x_positions :: "real list"
  y_positions :: "real list"
  z_positions :: "real list"
  current_x :: real
  current_y :: real
  current_z :: real
  errors :: "msg list"
  warnings :: "msg list"
  commands :: "(nat \<times> string) list"
  main_programs :: "string list"
  program_calls :: "string list"

definition init :: GCodeChecker where
  "init = \<lparr>x_positions = [], y_positions = [], z_positions = [],
           current_x = 0, current_y = 0, current_z = 0,
           errors = [], warnings = [], commands = [],
           main_programs = [], program_calls = []\<rparr>"

definition supported_extensions :: "string list" where
  "supported_extensions = [''.nc'', ''.txt'', ''.gcode'', ''.cnc'']"

subsection \<open>Checks on one line\<close>

definition parse_coordinate :: "string \<Rightarrow> char \<Rightarrow> real option" where
  "parse_coordinate line axis = map_option float_py (search_axis axis (upper line))"

definition check_program_structure :: "string \<Rightarrow> GCodeChecker \<Rightarrow> GCodeChecker" where
  \<comment> \<open>The three tests that end the source function (\<^verbatim>\<open>%\<close>, \<^verbatim>\<open>M99\<close>, \<^verbatim>\<open>M30\<close>/\<^verbatim>\<open>M02\<close>) only
      return and change nothing.\<close>
  "check_program_structure line self =
     (let line_upper = strip (upper line);
          self1 =
            (if match_letter_digits ''O'' line_upper
             then (case search_letter_digits CHR ''O'' line_upper of
                     Some prog_num \<Rightarrow>
                       if prog_num \<notin> set (main_programs self)
                       then self\<lparr>main_programs := main_programs self @ [prog_num]\<rparr>
                       else self
                   | None \<Rightarrow> self \<comment> \<open>not reached: the line starts with \<^verbatim>\<open>O\<close> and a digit\<close>)
             else self)
      in if contains line_upper ''M98'' \<and> contains line_upper ''P''
         then (case search_letter_digits CHR ''P'' line_upper of
                 Some sub_num \<Rightarrow> self1\<lparr>program_calls := program_calls self1 @ [sub_num]\<rparr>
               | None \<Rightarrow> self1)
         else self1)"

definition check_syntax :: "string \<Rightarrow> GCodeChecker \<Rightarrow> bool \<times> GCodeChecker" where
  "check_syntax line0 self =
     (let line = upper (strip line0) in
      if line = [] \<or> startswith line '';'' \<or> startswith line ''(''
      then (True, self)
      else
        let self1 = check_program_structure line self in
        if \<not> match_letter_digits ''GM'' line
           \<and> \<not> match_letter ''XYZIJKR'' line \<and> \<not> startswith line ''F''
           \<and> \<not> startswith line ''S'' \<and> \<not> startswith line ''T''
           \<and> \<not> startswith line ''N'' \<and> \<not> match_letter_digits ''OP'' line
        then (False, self1\<lparr>errors := errors self1 @ [[Txt (''Invalid command format: '' @ line)]]\<rparr>)
        else (True, self1))"

definition max_travel :: real where
  "max_travel = 1000"

definition travel_warnings :: "GCodeChecker \<Rightarrow> msg list" where
  "travel_warnings self =
     (if \<bar>current_x self\<bar> > max_travel
      then [[Txt ''X coordinate '', Flt (current_x self), Txt '' exceeds typical travel range'']]
      else [])
     @ (if \<bar>current_y self\<bar> > max_travel
        then [[Txt ''Y coordinate '', Flt (current_y self), Txt '' exceeds typical travel range'']]
        else [])
     @ (if \<bar>current_z self\<bar> > max_travel
        then [[Txt ''Z coordinate '', Flt (current_z self), Txt '' exceeds typical travel range'']]
        else [])"

definition check_coordinates :: "string \<Rightarrow> GCodeChecker \<Rightarrow> GCodeChecker" where
  "check_coordinates line self =
     (let x = parse_coordinate line CHR ''X'';
          y = parse_coordinate line CHR ''Y'';
          z = parse_coordinate line CHR ''Z'';
          self1 = (case x of Some v \<Rightarrow> self\<lparr>current_x := v\<rparr> | None \<Rightarrow> self);
          self2 = (case y of Some v \<Rightarrow> self1\<lparr>current_y := v\<rparr> | None \<Rightarrow> self1);
          self3 = (case z of Some v \<Rightarrow> self2\<lparr>current_z := v\<rparr> | None \<Rightarrow> self2);
          self4 = self3\<lparr>x_positions := x_positions self3 @ [current_x self3],
                         y_positions := y_positions self3 @ [current_y self3],
                         z_positions := z_positions self3 @ [current_z self3]\<rparr>
      in self4\<lparr>warnings := warnings self4 @ travel_warnings self4\<rparr>)"

definition check_feed_rate :: "string \<Rightarrow> GCodeChecker \<Rightarrow> GCodeChecker" where
  "check_feed_rate line self =
     (if contains (upper line) ''F''
      then (case search_feed (upper line) of
              Some g \<Rightarrow>
                let feed_rate = float_py g in
                if feed_rate > 10000
                then self\<lparr>warnings := warnings self @ [[Txt ''High feed rate: '', Flt feed_rate, Txt '' mm/min'']]\<rparr>
                else if feed_rate \<le> 0
                then self\<lparr>errors := errors self @ [[Txt ''Invalid feed rate: '', Flt feed_rate]]\<rparr>
                else self
            | None \<Rightarrow> self)
      else self)"

definition mentions_axis :: "string \<Rightarrow> bool" where
  \<comment> \<open>\<^verbatim>\<open>any(axis in line.upper() for axis in ['X', 'Y', 'Z'])\<close>\<close>
  "mentions_axis line = list_ex (\<lambda>axis. contains (upper line) axis) [''X'', ''Y'', ''Z'']"

definition process_line :: "nat \<times> string \<Rightarrow> GCodeChecker \<Rightarrow> GCodeChecker" where
  \<comment> \<open>the body of the loop over the lines in \<^verbatim>\<open>analyze_file\<close>\<close>
  "process_line numbered self =
     (let line_num = fst numbered; line = strip (snd numbered) in
      if line = [] then self
      else
        let self1 = self\<lparr>commands := commands self @ [(line_num, line)]\<rparr>;
            self2 = snd (check_syntax line self1);
            self3 = (if mentions_axis line then check_coordinates line self2 else self2)
        in check_feed_rate line self3)"

definition enumerate1 :: "'a list \<Rightarrow> (nat \<times> 'a) list" where
  \<comment> \<open>\<^verbatim>\<open>enumerate(lines, 1)\<close>\<close>
  "enumerate1 xs = zip [1 ..< Suc (length xs)] xs"

definition process_lines :: "string list \<Rightarrow> GCodeChecker \<Rightarrow> GCodeChecker" where
  "process_lines lines self = foldl (\<lambda>s numbered. process_line numbered s) self (enumerate1 lines)"

subsection \<open>Program structure after the last line\<close>

definition called_not_defined :: "string \<Rightarrow> msg" where
  "called_not_defined call = [Txt (''Subprogram P'' @ call @ '' called but not defined'')]"

definition defined_never_called :: "string \<Rightarrow> msg" where
  "defined_never_called prog = [Txt (''Subprogram O'' @ prog @ '' defined but never called'')]"

definition validate_program_structure :: "GCodeChecker \<Rightarrow> GCodeChecker" where
  "validate_program_structure self =
     (let self1 = self\<lparr>warnings := warnings self
            @ map called_not_defined
                (filter (\<lambda>call. call \<notin> set (main_programs self)) (program_calls self))\<rparr>
      in self1\<lparr>warnings := warnings self1
            @ map defined_never_called
                (filter (\<lambda>prog. prog \<notin> set (program_calls self1)) (drop 1 (main_programs self1)))\<rparr>)"

section \<open>Files\<close>

text \<open>
  The file system is a map from path names to what is found there: a readable text file
  with the list of its lines as \<^verbatim>\<open>readlines\<close> returns them, or an entry that exists but
  whose opening or reading raises an exception other than \<^verbatim>\<open>FileNotFoundError\<close> (a
  directory, a file without read permission), with the text of that exception. Path names
  follow the POSIX flavour of \<^verbatim>\<open>os.path\<close>.
\<close>

datatype entry = File "string list" | Unreadable string

type_synonym filesystem = "string \<Rightarrow> entry option"

definition path_exists :: "filesystem \<Rightarrow> string \<Rightarrow> bool" where
  \<comment> \<open>\<^verbatim>\<open>os.path.exists\<close>\<close>
  "path_exists fs p = (fs p \<noteq> None)"

definition dirname :: "string \<Rightarrow> string" where
  \<comment> \<open>\<^verbatim>\<open>os.path.dirname\<close>: the text up to the last slash, without its trailing slashes
      unless it consists of slashes only\<close>
  "dirname p =
     (let head = rev (dropWhile (\<lambda>c. c \<noteq> CHR ''/'') (rev p)) in
      if head \<noteq> [] \<and> head \<noteq> replicate (length head) CHR ''/''
      then rev (dropWhile (\<lambda>c. c = CHR ''/'') (rev head))
      else head)"

definition join :: "string \<Rightarrow> string \<Rightarrow> string" where
  \<comment> \<open>\<^verbatim>\<open>os.path.join(a, b)\<close>\<close>
  "join a b =
     (if startswith b ''/'' then b
      else if a = [] \<or> last a = CHR ''/'' then a @ b
      else a @ ''/'' @ b)"

definition splitext_ext :: "string \<Rightarrow> string" where
  \<comment> \<open>\<^verbatim>\<open>os.path.splitext(p)[1]\<close>: the text from the last dot of the last path component
      on, when a character other than a dot precedes that dot in the component\<close>
  "splitext_ext p =
     (let base = rev (takeWhile (\<lambda>c. c \<noteq> CHR ''/'') (rev p));
          body = dropWhile (\<lambda>c. c = CHR ''.'') base
      in if CHR ''.'' \<in> set body
         then CHR ''.'' # rev (takeWhile (\<lambda>c. c \<noteq> CHR ''.'') (rev body))
         else [])"

definition check_file_format :: "string \<Rightarrow> GCodeChecker \<Rightarrow> GCodeChecker" where
  "check_file_format filename self =
     (let file_ext = splitext_ext (lower filename) in
      if file_ext \<notin> set supported_extensions
      then self\<lparr>warnings := warnings self
             @ [[Txt (''File extension '' @ [CHR 0x27] @ file_ext @ [CHR 0x27]
                      @ '' may not be standard G-code format'')]]\<rparr>
      else self)"

subsection \<open>Subprogram files\<close>

definition possible_names :: "string \<Rightarrow> string list" where
  "possible_names call =
     [''O'' @ call @ ''.txt'',
      ''O'' @ call @ ''.nc'',
      ''o'' @ call @ ''.txt'',
      ''o'' @ call @ ''.nc'',
      call @ ''.txt'',
      call @ ''.nc'']"

text \<open>One entry of the list \<^verbatim>\<open>detected_subprograms\<close>.\<close>

record detected =
  d_file :: string
  d_path :: string
  d_errors :: nat
  d_warnings :: nat
  d_commands :: nat

definition merge_subprogram ::
  "string \<Rightarrow> string \<Rightarrow> string \<Rightarrow> GCodeChecker \<Rightarrow> GCodeChecker \<times> detected list
     \<Rightarrow> GCodeChecker \<times> detected list" where
  \<comment> \<open>what the loop does after \<^verbatim>\<open>sub_checker.analyze_file\<close> has returned \<^verbatim>\<open>True\<close>\<close>
  "merge_subprogram call name subprogram_path sub_checker st =
     (let self = fst st;
          det = snd st @ [\<lparr>d_file = name, d_path = subprogram_path,
                           d_errors = length (errors sub_checker),
                           d_warnings = length (warnings sub_checker),
                           d_commands = length (commands sub_checker)\<rparr>];
          self1 = self\<lparr>errors := errors self
                    @ map (\<lambda>error. Txt (''Subprogram '' @ name @ '': '') # error) (errors sub_checker)\<rparr>;
          self2 = self1\<lparr>warnings := warnings self1
                    @ map (\<lambda>warning. Txt (''Subprogram '' @ name @ '': '') # warning) (warnings sub_checker)\<rparr>;
          self3 = (if call \<in> set (program_calls self2)
                   then self2\<lparr>main_programs := main_programs self2 @ [call]\<rparr>
                   else self2)
      in (self3, det))"

text \<open>
  The analysis of a subprogram file runs the whole analysis again and so may not return.
  The two loops of \<^verbatim>\<open>auto_detect_and_analyze_subprograms\<close> take that analysis as the
  argument \<open>an\<close>: \<open>an path\<close> is the outcome of \<^verbatim>\<open>GCodeChecker().analyze_file(path)\<close>, the
  returned truth value with the final state of the fresh checker, or \<open>None\<close> when the
  call does not return. The lines that the source prints to the console are not part of
  the model.
\<close>

fun try_names ::
  "(string \<Rightarrow> (bool \<times> GCodeChecker) option) \<Rightarrow> filesystem \<Rightarrow> string \<Rightarrow> string \<Rightarrow> string list
     \<Rightarrow> GCodeChecker \<times> detected list \<Rightarrow> (GCodeChecker \<times> detected list) option" where
  \<comment> \<open>the inner loop \<^verbatim>\<open>for name in possible_names\<close>, left by \<^verbatim>\<open>break\<close> at the first
      name that exists\<close>
  "try_names an fs main_dir call [] st = Some st"
| "try_names an fs main_dir call (name # names) st =
     (let subprogram_path = join main_dir name in
      if path_exists fs subprogram_path
      then (case an subprogram_path of
              None \<Rightarrow> None
            | Some (ok, sub_checker) \<Rightarrow>
                if ok then Some (merge_subprogram call name subprogram_path sub_checker st)
                else Some st)
      else try_names an fs main_dir call names st)"

fun subprogram_loop ::
  "(string \<Rightarrow> (bool \<times> GCodeChecker) option) \<Rightarrow> filesystem \<Rightarrow> string \<Rightarrow> string list
     \<Rightarrow> GCodeChecker \<times> detected list \<Rightarrow> (GCodeChecker \<times> detected list) option" where
  \<comment> \<open>the outer loop \<^verbatim>\<open>for call in self.program_calls\<close>\<close>
  "subprogram_loop an fs main_dir [] st = Some st"
| "subprogram_loop an fs main_dir (call # calls) st =
     (case try_names an fs main_dir call (possible_names call) st of
        None \<Rightarrow> None
      | Some st' \<Rightarrow> subprogram_loop an fs main_dir calls st')"

definition main_dir_of :: "string \<Rightarrow> string" where
  "main_dir_of main_filename =
     (let main_dir = dirname main_filename in if main_dir = [] then ''.'' else main_dir)"

definition auto_detect_and_analyze_subprograms ::
  "(string \<Rightarrow> (bool \<times> GCodeChecker) option) \<Rightarrow> filesystem \<Rightarrow> string \<Rightarrow> GCodeChecker
     \<Rightarrow> (GCodeChecker \<times> detected list) option" where
  \<comment> \<open>returns the checker with the merged diagnostics and \<^verbatim>\<open>detected_subprograms\<close>\<close>
  "auto_detect_and_analyze_subprograms an fs main_filename self =
     subprogram_loop an fs (main_dir_of main_filename) (program_calls self) (self, [])"

subsection \<open>The analysis of a file\<close>

text \<open>
  \<open>analyze_file n\<close> is \<^verbatim>\<open>analyze_file\<close> run with room for \<open>n\<close> nested analyses (the file
  itself, a subprogram of it, a subprogram of that one, ...). The result \<open>None\<close> says that
  the nesting goes deeper than \<open>n\<close>; \<open>Some (ok, self)\<close> is the returned truth value and
  the state of the checker at the return. No limit on the depth of recursion is part of
  the model.
\<close>

fun analyze_file :: "nat \<Rightarrow> filesystem \<Rightarrow> string \<Rightarrow> GCodeChecker \<Rightarrow> (bool \<times> GCodeChecker) option" where
  "analyze_file 0 fs filename self = None"
| "analyze_file (Suc n) fs filename self =
     (let self1 = check_file_format filename self in
      case fs filename of
        None \<Rightarrow>
          Some (False, self1\<lparr>errors := errors self1 @ [[Txt (''File not found: '' @ filename)]]\<rparr>)
      | Some (Unreadable e) \<Rightarrow>
          Some (False, self1\<lparr>errors := errors self1 @ [[Txt (''Error reading file: '' @ e)]]\<rparr>)
      | Some (File lines) \<Rightarrow>
          (let self2 = process_lines lines self1 in
           case auto_detect_and_analyze_subprograms (\<lambda>path. analyze_file n fs path init)
                  fs filename self2 of
             None \<Rightarrow> None
           | Some (self3, detected_subprograms) \<Rightarrow> Some (True, validate_program_structure self3)))"

section \<open>Vocabulary of the specification\<close>

text \<open>
  The definitions of this section are not code of the checker. They name the notions in
  which the properties below are stated.
\<close>

definition is_unsigned_decimal :: "string \<Rightarrow> bool" where
  \<comment> \<open>digits with an optional fractional part, with at least one digit at the end:
      \<^verbatim>\<open>12\<close>, \<^verbatim>\<open>12.5\<close>, \<^verbatim>\<open>.5\<close>, but neither \<^verbatim>\<open>12.\<close> nor the empty text\<close>
  "is_unsigned_decimal s =
     (let ip = takeWhile is_digit s; r = dropWhile is_digit s in
      case r of
        [] \<Rightarrow> ip \<noteq> []
      | c # fp \<Rightarrow> c = CHR ''.'' \<and> fp \<noteq> [] \<and> list_all is_digit fp)"

definition is_signed_decimal :: "string \<Rightarrow> bool" where
  \<comment> \<open>a well-formed signed decimal number: an unsigned decimal after an optional sign\<close>
  "is_signed_decimal s =
     (case s of
        [] \<Rightarrow> False
      | c # r \<Rightarrow> if c = CHR ''+'' \<or> c = CHR ''-'' then is_unsigned_decimal r
                 else is_unsigned_decimal s)"

definition number_follows :: "string \<Rightarrow> bool" where
  \<comment> \<open>some initial part of the text is a well-formed signed decimal number\<close>
  "number_follows s = (\<exists>k \<le> length s. is_signed_decimal (take k s))"


definition is_ignorable :: "string \<Rightarrow> bool" where
  \<comment> \<open>empty after trimming, or the first character that is no space starts a comment\<close>
  "is_ignorable line =
     (strip line = [] \<or> startswith (strip line) '';'' \<or> startswith (strip line) ''('')"

definition first_existing :: "filesystem \<Rightarrow> string \<Rightarrow> string \<Rightarrow> string option" where
  \<comment> \<open>the first of the candidate names of a call that exists beside the main file\<close>
  "first_existing fs main_dir call =
     find (\<lambda>name. path_exists fs (join main_dir name)) (possible_names call)"

definition resolved ::
  "(string \<Rightarrow> (bool \<times> GCodeChecker) option) \<Rightarrow> filesystem \<Rightarrow> string \<Rightarrow> string
     \<Rightarrow> (string \<times> GCodeChecker) option" where
  \<comment> \<open>a call is resolved when its first existing candidate is analysed with success; the
      value is the name of that file with the final state of its checker\<close>
  "resolved an fs main_dir call =
     (case first_existing fs main_dir call of
        None \<Rightarrow> None
      | Some name \<Rightarrow>
          (case an (join main_dir name) of
             Some (ok, sub_checker) \<Rightarrow> if ok then Some (name, sub_checker) else None
           | None \<Rightarrow> None))"

definition tagged :: "string \<Rightarrow> msg \<Rightarrow> msg" where
  \<comment> \<open>a diagnostic of a subprogram file as it is entered in the report of the caller\<close>
  "tagged name m = Txt (''Subprogram '' @ name @ '': '') # m"




definition returns_on ::
  "(string \<Rightarrow> (bool \<times> GCodeChecker) option) \<Rightarrow> filesystem \<Rightarrow> string \<Rightarrow> string \<Rightarrow> bool" where
  \<comment> \<open>the nested analysis that a call leads to, if it leads to one, returns\<close>
  "returns_on an fs main_dir call =
     (case first_existing fs main_dir call of
        None \<Rightarrow> True
      | Some name \<Rightarrow> an (join main_dir name) \<noteq> None)"

definition merge_resolved ::
  "(string \<Rightarrow> (bool \<times> GCodeChecker) option) \<Rightarrow> filesystem \<Rightarrow> string
     \<Rightarrow> GCodeChecker \<times> detected list \<Rightarrow> string \<Rightarrow> GCodeChecker \<times> detected list" where
  \<comment> \<open>the effect of one occurrence of a call on the state of the resolver\<close>
  "merge_resolved an fs main_dir st call =
     (case resolved an fs main_dir call of
        None \<Rightarrow> st
      | Some (name, sub_checker) \<Rightarrow>
          merge_subprogram call name (join main_dir name) sub_checker st)"

definition merged_errors ::
  "(string \<Rightarrow> (bool \<times> GCodeChecker) option) \<Rightarrow> filesystem \<Rightarrow> string \<Rightarrow> string \<Rightarrow> msg list" where
  \<comment> \<open>the errors that one occurrence of a call adds to the report of the caller\<close>
  "merged_errors an fs main_dir call =
     (case resolved an fs main_dir call of
        None \<Rightarrow> []
      | Some (name, sub_checker) \<Rightarrow> map (tagged name) (errors sub_checker))"

definition merged_warnings ::
  "(string \<Rightarrow> (bool \<times> GCodeChecker) option) \<Rightarrow> filesystem \<Rightarrow> string \<Rightarrow> string \<Rightarrow> msg list" where
  \<comment> \<open>the warnings that one occurrence of a call adds to the report of the caller\<close>
  "merged_warnings an fs main_dir call =
     (case resolved an fs main_dir call of
        None \<Rightarrow> []
      | Some (name, sub_checker) \<Rightarrow> map (tagged name) (warnings sub_checker))"

definition is_resolved ::
  "(string \<Rightarrow> (bool \<times> GCodeChecker) option) \<Rightarrow> filesystem \<Rightarrow> string \<Rightarrow> string \<Rightarrow> bool" where
  "is_resolved an fs main_dir call = (resolved an fs main_dir call \<noteq> None)"

definition resolved_file ::
  "(string \<Rightarrow> (bool \<times> GCodeChecker) option) \<Rightarrow> filesystem \<Rightarrow> string \<Rightarrow> string \<Rightarrow> string list" where
  \<comment> \<open>the name of the file that one occurrence of a call adds to the detected subprograms\<close>
  "resolved_file an fs main_dir call =
     (case resolved an fs main_dir call of
        None \<Rightarrow> []
      | Some (name, sub_checker) \<Rightarrow> [name])"

definition axis_value :: "char \<Rightarrow> GCodeChecker \<Rightarrow> real" where
  \<comment> \<open>the field of the position that belongs to an axis letter\<close>
  "axis_value a self =
     (if a = CHR ''X'' then current_x self
      else if a = CHR ''Y'' then current_y self
      else current_z self)"

subsection \<open>Example file systems\<close>

definition fs_unresolved :: filesystem where
  \<comment> \<open>a main file that calls program 200, with no file for program 200\<close>
  "fs_unresolved = map_of [(''job/main.nc'', File [''O100'', ''M98 P200'', ''M30''])]"

definition fs_resolved :: filesystem where
  \<comment> \<open>the same main file with the sibling \<^verbatim>\<open>O200.nc\<close>\<close>
  "fs_resolved = map_of
     [(''job/main.nc'', File [''O100'', ''M98 P200'', ''M30'']),
      (''job/O200.nc'', File [''O200'', ''G1 X1'', ''M99''])]"

definition fs_twice :: filesystem where
  \<comment> \<open>a main file that calls program 200 twice; the subprogram has an invalid feed rate\<close>
  "fs_twice = map_of
     [(''job/main.nc'', File [''M98 P200'', ''M98 P200'']),
      (''job/200.txt'', File [''F0''])]"


section \<open>Evaluation of single lines\<close>

lemmas text_defs =
  is_digit_def is_space_def upper_def upper_char_def lower_def lower_char_def strip_def
  startswith_def match_letter_digits_def match_letter_def match_unsigned_def match_signed_def
  digit_value_def digits_value_def unsigned_value_def float_py_def

lemmas line_defs =
  parse_coordinate_def check_program_structure_def check_syntax_def max_travel_def
  travel_warnings_def check_coordinates_def check_feed_rate_def mentions_axis_def
  process_line_def

text \<open>
  Claim C3 (feed rates). The specification says that each of the lines \<^verbatim>\<open>F0\<close> and
  \<^verbatim>\<open>F-5\<close> produces exactly one error, that \<^verbatim>\<open>F15000\<close> produces exactly one warning and
  that \<^verbatim>\<open>F500\<close> produces neither. The code does so for \<^verbatim>\<open>F0\<close>, \<^verbatim>\<open>F15000\<close> and
  \<^verbatim>\<open>F500\<close>. For \<^verbatim>\<open>F-5\<close> it produces no error and no warning: the pattern of
  \<^verbatim>\<open>check_feed_rate\<close> has no sign, so nothing is matched behind the letter and the test
  \<^verbatim>\<open>feed_rate <= 0\<close> is never reached with a negative number.
\<close>

theorem feed_rate_lines:
  "errors (process_line (n, ''F0'') self) = errors self @ [[Txt ''Invalid feed rate: '', Flt 0]]
   \<and> warnings (process_line (n, ''F0'') self) = warnings self
   \<and> errors (process_line (n, ''F-5'') self) = errors self
   \<and> warnings (process_line (n, ''F-5'') self) = warnings self
   \<and> errors (process_line (n, ''F15000'') self) = errors self
   \<and> warnings (process_line (n, ''F15000'') self)
       = warnings self @ [[Txt ''High feed rate: '', Flt 15000, Txt '' mm/min'']]
   \<and> errors (process_line (n, ''F500'') self) = errors self
   \<and> warnings (process_line (n, ''F500'') self) = warnings self"
  by (simp add: text_defs line_defs Let_def)

text \<open>
  Claim C2 (ignorable lines). The specification says that a line that is empty after
  trimming or starts with \<^verbatim>\<open>;\<close> or \<^verbatim>\<open>(\<close> emits no error and leaves the position
  unchanged. \<^verbatim>\<open>check_syntax\<close> returns at once for such a line, but \<^verbatim>\<open>analyze_file\<close>
  skips blank lines only and runs the coordinate and feed-rate checks on comment lines:
  the comment \<^verbatim>\<open>; X10\<close> moves the X position from 0 to 10, and the comment \<^verbatim>\<open>(F0)\<close>
  emits an error.
\<close>

theorem comment_line_is_processed:
  "is_ignorable ''; X10'' \<and> current_x init = 0
   \<and> current_x (process_line (1, ''; X10'') init) = 10
   \<and> is_ignorable ''(F0)'' \<and> errors init = []
   \<and> errors (process_line (1, ''(F0)'') init) = [[Txt ''Invalid feed rate: '', Flt 0]]"
  by code_simp

section \<open>Evaluation of whole files\<close>

text \<open>
  Claim C7 (registries). The specification says that no program number ever appears in
  the Program Registry more than once, also after cross-file resolution, while the Call
  Registry keeps duplicates. \<^verbatim>\<open>check_program_structure\<close> does test
  \<^verbatim>\<open>prog_num not in self.main_programs\<close> before it appends, but the resolver appends the
  call number under the test \<^verbatim>\<open>call in self.program_calls\<close>, which always holds. A main
  file that calls the existing subprogram 200 twice ends with 200 twice in
  \<^verbatim>\<open>main_programs\<close>.
\<close>

theorem resolver_duplicates_program_number:
  "map_option (\<lambda>r. (fst r, main_programs (snd r), program_calls (snd r)))
     (analyze_file 2 fs_twice ''job/main.nc'' init)
   = Some (True, [''200'', ''200''], [''200'', ''200''])"
  by code_simp

text \<open>
  Claim C6 (candidate names), as stated: eight candidate names are tried for every call
  number. The list of the source has six entries.
\<close>

theorem eight_candidates_counterexample:
  "length (possible_names ''200'') \<noteq> 8"
  by (simp add: possible_names_def)

section \<open>Lines and letters\<close>

lemma contains_single: "contains s [c] = (c \<in> set s)"
  by (induction s) (auto simp: startswith_def)









section \<open>What each check changes\<close>

lemma check_program_structure_frame:
  "x_positions (check_program_structure l s) = x_positions s"
  "y_positions (check_program_structure l s) = y_positions s"
  "z_positions (check_program_structure l s) = z_positions s"
  "current_x (check_program_structure l s) = current_x s"
  "current_y (check_program_structure l s) = current_y s"
  "current_z (check_program_structure l s) = current_z s"
  "errors (check_program_structure l s) = errors s"
  "warnings (check_program_structure l s) = warnings s"
  "commands (check_program_structure l s) = commands s"
  by (simp_all add: check_program_structure_def Let_def split: option.splits)

lemma check_syntax_frame:
  "x_positions (snd (check_syntax l s)) = x_positions s"
  "y_positions (snd (check_syntax l s)) = y_positions s"
  "z_positions (snd (check_syntax l s)) = z_positions s"
  "current_x (snd (check_syntax l s)) = current_x s"
  "current_y (snd (check_syntax l s)) = current_y s"
  "current_z (snd (check_syntax l s)) = current_z s"
  "warnings (snd (check_syntax l s)) = warnings s"
  "commands (snd (check_syntax l s)) = commands s"
  by (simp_all add: check_syntax_def Let_def check_program_structure_frame)

lemma check_feed_rate_frame:
  "x_positions (check_feed_rate l s) = x_positions s"
  "y_positions (check_feed_rate l s) = y_positions s"
  "z_positions (check_feed_rate l s) = z_positions s"
  "current_x (check_feed_rate l s) = current_x s"
  "current_y (check_feed_rate l s) = current_y s"
  "current_z (check_feed_rate l s) = current_z s"
  "commands (check_feed_rate l s) = commands s"
  "main_programs (check_feed_rate l s) = main_programs s"
  "program_calls (check_feed_rate l s) = program_calls s"
  by (simp_all add: check_feed_rate_def Let_def split: option.splits)

lemma check_coordinates_frame:
  "errors (check_coordinates l s) = errors s"
  "commands (check_coordinates l s) = commands s"
  "main_programs (check_coordinates l s) = main_programs s"
  "program_calls (check_coordinates l s) = program_calls s"
  by (simp_all add: check_coordinates_def Let_def split: option.splits)





section \<open>The resolver of subprogram files\<close>

lemma try_names_find:
  "try_names an fs d call names st =
     (case find (\<lambda>name. path_exists fs (join d name)) names of
        None \<Rightarrow> Some st
      | Some name \<Rightarrow>
          (case an (join d name) of
             None \<Rightarrow> None
           | Some (ok, sub_checker) \<Rightarrow>
               if ok then Some (merge_subprogram call name (join d name) sub_checker st)
               else Some st))"
  by (induction names) (simp_all add: Let_def)

lemma try_names_resolved:
  "try_names an fs d call (possible_names call) st =
     (if returns_on an fs d call then Some (merge_resolved an fs d st call) else None)"
  by (auto simp: try_names_find returns_on_def merge_resolved_def resolved_def first_existing_def
      split: option.splits)

lemma subprogram_loop_foldl:
  "subprogram_loop an fs d calls st =
     (if list_all (returns_on an fs d) calls then Some (foldl (merge_resolved an fs d) st calls)
      else None)"
  by (induction calls arbitrary: st) (simp_all add: try_names_resolved)

lemma merge_subprogram_fields:
  "x_positions (fst (merge_subprogram call name p sub st)) = x_positions (fst st)"
  "y_positions (fst (merge_subprogram call name p sub st)) = y_positions (fst st)"
  "z_positions (fst (merge_subprogram call name p sub st)) = z_positions (fst st)"
  "current_x (fst (merge_subprogram call name p sub st)) = current_x (fst st)"
  "current_y (fst (merge_subprogram call name p sub st)) = current_y (fst st)"
  "current_z (fst (merge_subprogram call name p sub st)) = current_z (fst st)"
  "commands (fst (merge_subprogram call name p sub st)) = commands (fst st)"
  "program_calls (fst (merge_subprogram call name p sub st)) = program_calls (fst st)"
  "errors (fst (merge_subprogram call name p sub st)) = errors (fst st) @ map (tagged name) (errors sub)"
  "warnings (fst (merge_subprogram call name p sub st))
     = warnings (fst st) @ map (tagged name) (warnings sub)"
  "main_programs (fst (merge_subprogram call name p sub st))
     = main_programs (fst st) @ (if call \<in> set (program_calls (fst st)) then [call] else [])"
  "snd (merge_subprogram call name p sub st)
     = snd st @ [\<lparr>d_file = name, d_path = p, d_errors = length (errors sub),
                   d_warnings = length (warnings sub), d_commands = length (commands sub)\<rparr>]"
  by (simp_all add: merge_subprogram_def Let_def tagged_def)

lemma merge_resolved_fields:
  "x_positions (fst (merge_resolved an fs d st call)) = x_positions (fst st)"
  "y_positions (fst (merge_resolved an fs d st call)) = y_positions (fst st)"
  "z_positions (fst (merge_resolved an fs d st call)) = z_positions (fst st)"
  "current_x (fst (merge_resolved an fs d st call)) = current_x (fst st)"
  "current_y (fst (merge_resolved an fs d st call)) = current_y (fst st)"
  "current_z (fst (merge_resolved an fs d st call)) = current_z (fst st)"
  "commands (fst (merge_resolved an fs d st call)) = commands (fst st)"
  "program_calls (fst (merge_resolved an fs d st call)) = program_calls (fst st)"
  "errors (fst (merge_resolved an fs d st call)) = errors (fst st) @ merged_errors an fs d call"
  "warnings (fst (merge_resolved an fs d st call)) = warnings (fst st) @ merged_warnings an fs d call"
  "main_programs (fst (merge_resolved an fs d st call))
     = main_programs (fst st)
       @ (if is_resolved an fs d call \<and> call \<in> set (program_calls (fst st)) then [call] else [])"
  "length (snd (merge_resolved an fs d st call))
     = length (snd st) + (if is_resolved an fs d call then 1 else 0)"
  by (simp_all add: merge_resolved_def merged_errors_def merged_warnings_def is_resolved_def
      merge_subprogram_fields split: option.splits)

lemma foldl_merge_resolved_fields:
  "x_positions (fst (foldl (merge_resolved an fs d) st calls)) = x_positions (fst st)"
  "y_positions (fst (foldl (merge_resolved an fs d) st calls)) = y_positions (fst st)"
  "z_positions (fst (foldl (merge_resolved an fs d) st calls)) = z_positions (fst st)"
  "current_x (fst (foldl (merge_resolved an fs d) st calls)) = current_x (fst st)"
  "current_y (fst (foldl (merge_resolved an fs d) st calls)) = current_y (fst st)"
  "current_z (fst (foldl (merge_resolved an fs d) st calls)) = current_z (fst st)"
  "commands (fst (foldl (merge_resolved an fs d) st calls)) = commands (fst st)"
  "program_calls (fst (foldl (merge_resolved an fs d) st calls)) = program_calls (fst st)"
  "errors (fst (foldl (merge_resolved an fs d) st calls))
     = errors (fst st) @ concat (map (merged_errors an fs d) calls)"
  "warnings (fst (foldl (merge_resolved an fs d) st calls))
     = warnings (fst st) @ concat (map (merged_warnings an fs d) calls)"
  "length (snd (foldl (merge_resolved an fs d) st calls))
     = length (snd st) + length (filter (is_resolved an fs d) calls)"
  by (induction calls arbitrary: st) (simp_all add: merge_resolved_fields)

lemma foldl_merge_resolved_main_programs:
  "main_programs (fst (foldl (merge_resolved an fs d) st calls))
     = main_programs (fst st)
       @ filter (\<lambda>call. is_resolved an fs d call \<and> call \<in> set (program_calls (fst st))) calls"
  by (induction calls arbitrary: st) (simp_all add: merge_resolved_fields)

lemma foldl_merge_resolved_files:
  "map d_file (snd (foldl (merge_resolved an fs d) st calls))
     = map d_file (snd st) @ concat (map (resolved_file an fs d) calls)"
proof (induction calls arbitrary: st)
  case Nil
  show ?case by simp
next
  case (Cons call calls)
  have "map d_file (snd (merge_resolved an fs d st call))
      = map d_file (snd st) @ resolved_file an fs d call"
    by (cases "resolved an fs d call")
       (auto simp: merge_resolved_def resolved_file_def merge_subprogram_fields)
  then show ?case
    by (simp add: Cons.IH)
qed

lemma auto_detect_foldl:
  "auto_detect_and_analyze_subprograms an fs f self =
     (if list_all (returns_on an fs (main_dir_of f)) (program_calls self)
      then Some (foldl (merge_resolved an fs (main_dir_of f)) (self, []) (program_calls self))
      else None)"
  by (simp add: auto_detect_and_analyze_subprograms_def subprogram_loop_foldl)

text \<open>
  Claim C6 (candidate names), as amended. For every call number the resolver has six
  candidate names, \<^verbatim>\<open>O<n>.txt\<close>, \<^verbatim>\<open>O<n>.nc\<close>, \<^verbatim>\<open>o<n>.txt\<close>, \<^verbatim>\<open>o<n>.nc\<close>, \<^verbatim>\<open><n>.txt\<close>
  and \<^verbatim>\<open><n>.nc\<close>, in this order. When none of them exists the state is left as it is.
  Otherwise the first one that exists decides the outcome whatever follows it in the list:
  its analysis is the only one that is run, and its diagnostics are merged if that analysis
  succeeds.
\<close>

theorem six_candidates_first_existing_wins:
  "possible_names call =
     [''O'' @ call @ ''.txt'', ''O'' @ call @ ''.nc'', ''o'' @ call @ ''.txt'',
      ''o'' @ call @ ''.nc'', call @ ''.txt'', call @ ''.nc'']
   \<and> length (possible_names call) = 6
   \<and> ((\<forall>name \<in> set (possible_names call). \<not> path_exists fs (join d name))
        \<longrightarrow> try_names an fs d call (possible_names call) st = Some st)
   \<and> (\<forall>before name after.
         possible_names call = before @ name # after
         \<and> (\<forall>b \<in> set before. \<not> path_exists fs (join d b))
         \<and> path_exists fs (join d name)
         \<longrightarrow> try_names an fs d call (possible_names call) st =
               (case an (join d name) of
                  None \<Rightarrow> None
                | Some (ok, sub_checker) \<Rightarrow>
                    if ok then Some (merge_subprogram call name (join d name) sub_checker st)
                    else Some st))"
proof -
  have none: "find P xs = None" if "\<forall>x \<in> set xs. \<not> P x" for P :: "string \<Rightarrow> bool" and xs
    using that by (simp add: find_None_iff)
  have first: "find P (before @ name # after) = Some name"
    if "\<forall>b \<in> set before. \<not> P b" "P name" for P :: "string \<Rightarrow> bool" and before name after
    using that by (induction before) simp_all
  show ?thesis
    by (auto simp: try_names_find none first) (simp_all add: possible_names_def)
qed

text \<open>
  Witness of C6: beside \<^verbatim>\<open>job/main.nc\<close> the name \<^verbatim>\<open>O200.txt\<close> does not exist and
  \<^verbatim>\<open>O200.nc\<close> does, so the call of 200 is resolved to \<^verbatim>\<open>O200.nc\<close>.
\<close>

theorem six_candidates_first_existing_wins_witness:
  "\<not> path_exists fs_resolved (join ''job'' ''O200.txt'')
   \<and> path_exists fs_resolved (join ''job'' ''O200.nc'')
   \<and> map_option (\<lambda>st. (main_programs (fst st), map d_file (snd st)))
        (try_names (\<lambda>path. analyze_file (Suc 0) fs_resolved path init) fs_resolved ''job'' ''200''
           (possible_names ''200'') (init\<lparr>program_calls := [''200'']\<rparr>, []))
      = Some ([''200''], [''O200.nc''])"
proof -
  let ?an = "\<lambda>path. analyze_file (Suc 0) fs_resolved path init"
  let ?st = "(init\<lparr>program_calls := [''200'']\<rparr>, [])"
  have names: "possible_names ''200''
      = [''O200.txt''] @ ''O200.nc'' # [''o200.txt'', ''o200.nc'', ''200.txt'', ''200.nc'']"
    by (simp add: possible_names_def)
  have absent: "\<forall>b \<in> set [''O200.txt'']. \<not> path_exists fs_resolved (join ''job'' b)"
    by code_simp
  have present: "path_exists fs_resolved (join ''job'' ''O200.nc'')"
    by code_simp
  have "map_option fst (?an (join ''job'' ''O200.nc'')) = Some True"
    by code_simp
  then obtain sub_checker where sub: "?an (join ''job'' ''O200.nc'') = Some (True, sub_checker)"
    by (cases "?an (join ''job'' ''O200.nc'')") (auto simp del: analyze_file.simps)
  have "try_names ?an fs_resolved ''job'' ''200'' (possible_names ''200'') ?st =
        (case ?an (join ''job'' ''O200.nc'') of
           None \<Rightarrow> None
         | Some (ok, sub_checker) \<Rightarrow>
             if ok then Some (merge_subprogram ''200'' ''O200.nc'' (join ''job'' ''O200.nc'')
                                sub_checker ?st)
             else Some ?st)"
    using six_candidates_first_existing_wins [of "''200''" fs_resolved "''job''" ?an ?st]
      names absent present
    by blast
  then have "try_names ?an fs_resolved ''job'' ''200'' (possible_names ''200'') ?st =
      Some (merge_subprogram ''200'' ''O200.nc'' (join ''job'' ''O200.nc'') sub_checker ?st)"
    by (simp only: sub option.case prod.case if_True)
  moreover have "\<not> path_exists fs_resolved (join ''job'' ''O200.txt'')"
    using absent by simp
  ultimately show ?thesis
    using present by (simp add: merge_subprogram_fields init_def del: analyze_file.simps)
qed

text \<open>
  Claim C10 (one resolution per occurrence). The resolver goes through the Call Registry
  entry by entry, duplicates included. Provided that the nested analyses return, every
  occurrence of a call whose file exists and is analysed with success has that file
  analysed again (one entry in the detected subprograms per occurrence), has the errors
  and the warnings of the file merged again, and has its number appended to the Program
  Registry again, with no test for duplicates.
\<close>

theorem resolver_once_per_occurrence:
  assumes "list_all (returns_on an fs (main_dir_of f)) (program_calls self)"
  shows "\<exists>self' det.
           auto_detect_and_analyze_subprograms an fs f self = Some (self', det)
           \<and> program_calls self' = program_calls self
           \<and> main_programs self'
               = main_programs self @ filter (is_resolved an fs (main_dir_of f)) (program_calls self)
           \<and> errors self'
               = errors self @ concat (map (merged_errors an fs (main_dir_of f)) (program_calls self))
           \<and> warnings self'
               = warnings self @ concat (map (merged_warnings an fs (main_dir_of f)) (program_calls self))
           \<and> map d_file det = concat (map (resolved_file an fs (main_dir_of f)) (program_calls self))
           \<and> length det = length (filter (is_resolved an fs (main_dir_of f)) (program_calls self))"
proof -
  let ?d = "main_dir_of f"
  let ?st = "foldl (merge_resolved an fs ?d) (self, []) (program_calls self)"
  have run: "auto_detect_and_analyze_subprograms an fs f self = Some (fst ?st, snd ?st)"
    using assms by (simp add: auto_detect_foldl)
  have mp: "main_programs (fst ?st)
      = main_programs self @ filter (is_resolved an fs ?d) (program_calls self)"
    by (simp add: foldl_merge_resolved_main_programs cong: filter_cong)
  show ?thesis
    using run mp
    by (intro exI [of _ "fst ?st"] exI [of _ "snd ?st"])
       (simp add: foldl_merge_resolved_fields foldl_merge_resolved_files)
qed

text \<open>
  Witness of C10: the main file calls 200 twice and \<^verbatim>\<open>200.txt\<close> exists with one error.
  The number 200 is appended twice, the error is merged twice and the file is detected
  twice.
\<close>

theorem resolver_once_per_occurrence_witness:
  "list_all (returns_on (\<lambda>path. analyze_file (Suc 0) fs_twice path init) fs_twice
               (main_dir_of ''job/main.nc''))
            (program_calls (init\<lparr>program_calls := [''200'', ''200'']\<rparr>))
   \<and> map_option (\<lambda>r. (main_programs (fst r), errors (fst r), map d_file (snd r)))
        (auto_detect_and_analyze_subprograms (\<lambda>path. analyze_file (Suc 0) fs_twice path init)
           fs_twice ''job/main.nc'' (init\<lparr>program_calls := [''200'', ''200'']\<rparr>))
      = Some ([''200'', ''200''],
              [[Txt ''Subprogram 200.txt: '', Txt ''Invalid feed rate: '', Flt 0],
               [Txt ''Subprogram 200.txt: '', Txt ''Invalid feed rate: '', Flt 0]],
              [''200.txt'', ''200.txt''])"
proof -
  let ?an = "\<lambda>path. analyze_file (Suc 0) fs_twice path init"
  let ?self = "init\<lparr>program_calls := [''200'', ''200'']\<rparr>"
  have ret: "list_all (returns_on ?an fs_twice (main_dir_of ''job/main.nc'')) (program_calls ?self)"
    by code_simp
  have res: "is_resolved ?an fs_twice (main_dir_of ''job/main.nc'') ''200''"
    by code_simp
  have errs: "merged_errors ?an fs_twice (main_dir_of ''job/main.nc'') ''200''
      = [[Txt ''Subprogram 200.txt: '', Txt ''Invalid feed rate: '', Flt 0]]"
    by code_simp
  have rfile: "resolved_file ?an fs_twice (main_dir_of ''job/main.nc'') ''200'' = [''200.txt'']"
    by code_simp
  have init_fields: "program_calls ?self = [''200'', ''200'']" "main_programs ?self = []"
    "errors ?self = []"
    by (simp_all add: init_def)
  from resolver_once_per_occurrence [OF ret]
  obtain self' det where
    "auto_detect_and_analyze_subprograms ?an fs_twice ''job/main.nc'' ?self = Some (self', det)"
    "main_programs self' = main_programs ?self
       @ filter (is_resolved ?an fs_twice (main_dir_of ''job/main.nc'')) (program_calls ?self)"
    "errors self' = errors ?self
       @ concat (map (merged_errors ?an fs_twice (main_dir_of ''job/main.nc'')) (program_calls ?self))"
    "map d_file det
       = concat (map (resolved_file ?an fs_twice (main_dir_of ''job/main.nc'')) (program_calls ?self))"
    by blast
  then show ?thesis
    using ret by (simp add: init_fields res errs rfile del: analyze_file.simps)
qed

section \<open>One file\<close>


lemma validate_program_structure_frame:
  "x_positions (validate_program_structure s) = x_positions s"
  "y_positions (validate_program_structure s) = y_positions s"
  "z_positions (validate_program_structure s) = z_positions s"
  "current_x (validate_program_structure s) = current_x s"
  "current_y (validate_program_structure s) = current_y s"
  "current_z (validate_program_structure s) = current_z s"
  "errors (validate_program_structure s) = errors s"
  "commands (validate_program_structure s) = commands s"
  "main_programs (validate_program_structure s) = main_programs s"
  "program_calls (validate_program_structure s) = program_calls s"
  by (simp_all add: validate_program_structure_def Let_def)

lemma validate_program_structure_warnings:
  "warnings (validate_program_structure s) =
     warnings s
     @ map called_not_defined (filter (\<lambda>call. call \<notin> set (main_programs s)) (program_calls s))
     @ map defined_never_called
         (filter (\<lambda>prog. prog \<notin> set (program_calls s)) (drop 1 (main_programs s)))"
  by (simp add: validate_program_structure_def Let_def)

lemma analyze_file_File:
  assumes "fs f = Some (File lines)"
  shows "analyze_file (Suc n) fs f self =
     (if list_all (returns_on (\<lambda>path. analyze_file n fs path init) fs (main_dir_of f))
           (program_calls (process_lines lines (check_file_format f self)))
      then Some (True, validate_program_structure
             (fst (foldl (merge_resolved (\<lambda>path. analyze_file n fs path init) fs (main_dir_of f))
                     (process_lines lines (check_file_format f self), [])
                     (program_calls (process_lines lines (check_file_format f self))))))
      else None)"
  using assms by (simp add: Let_def auto_detect_foldl split: prod.splits)




section \<open>The main file of the example\<close>

lemma check_file_format_eq:
  "check_file_format f s = s\<lparr>warnings := warnings (check_file_format f s)\<rparr>"
  by (simp add: check_file_format_def Let_def)

lemma example_main_lines:
  "process_lines [''O100'', ''M98 P200'', ''M30''] (init\<lparr>warnings := ws\<rparr>)
     = init\<lparr>warnings := ws,
            commands := [(1, ''O100''), (2, ''M98 P200''), (3, ''M30'')],
            main_programs := [''100''], program_calls := [''200'']\<rparr>"
  by (simp add: process_lines_def enumerate1_def init_def text_defs line_defs Let_def)

lemma first_existing_None:
  "first_existing fs d call = None \<longleftrightarrow>
     (\<forall>name \<in> set (possible_names call). \<not> path_exists fs (join d name))"
  by (auto simp: first_existing_def find_None_iff)

lemma unresolved_without_file:
  assumes "first_existing fs d call = None"
  shows "returns_on an fs d call" and "merge_resolved an fs d st call = st"
  using assms by (simp_all add: returns_on_def merge_resolved_def resolved_def)

text \<open>
  Claim C5 (a call without a file). A main file with exactly the lines \<^verbatim>\<open>O100\<close>,
  \<^verbatim>\<open>M98 P200\<close>, \<^verbatim>\<open>M30\<close>, beside which none of the candidate files of program 200
  exists, is analysed with success; the resolver changes nothing, the post-pass adds
  exactly one warning, \<^verbatim>\<open>Subprogram P200 called but not defined\<close>, and the Program
  Registry ends as the one number 100.
\<close>

theorem call_without_file:
  assumes "fs f = Some (File [''O100'', ''M98 P200'', ''M30''])"
    and "\<forall>name \<in> set (possible_names ''200''). \<not> path_exists fs (join (main_dir_of f) name)"
  shows "auto_detect_and_analyze_subprograms (\<lambda>path. analyze_file n fs path init) fs f
             (process_lines [''O100'', ''M98 P200'', ''M30''] (check_file_format f init))
           = Some (process_lines [''O100'', ''M98 P200'', ''M30''] (check_file_format f init), [])
         \<and> analyze_file (Suc n) fs f init
           = Some (True, validate_program_structure
                (process_lines [''O100'', ''M98 P200'', ''M30''] (check_file_format f init)))
         \<and> warnings (validate_program_structure
                (process_lines [''O100'', ''M98 P200'', ''M30''] (check_file_format f init)))
           = warnings (process_lines [''O100'', ''M98 P200'', ''M30''] (check_file_format f init))
             @ [[Txt ''Subprogram P200 called but not defined'']]
         \<and> main_programs (validate_program_structure
                (process_lines [''O100'', ''M98 P200'', ''M30''] (check_file_format f init)))
           = [''100'']
         \<and> program_calls (validate_program_structure
                (process_lines [''O100'', ''M98 P200'', ''M30''] (check_file_format f init)))
           = [''200'']
         \<and> errors (validate_program_structure
                (process_lines [''O100'', ''M98 P200'', ''M30''] (check_file_format f init)))
           = []"
proof -
  let ?an = "\<lambda>path. analyze_file n fs path init"
  let ?s2 = "process_lines [''O100'', ''M98 P200'', ''M30''] (check_file_format f init)"
  have none: "first_existing fs (main_dir_of f) ''200'' = None"
    using assms(2) by (simp add: first_existing_None)
  have s2: "?s2 = init\<lparr>warnings := warnings (check_file_format f init),
            commands := [(1, ''O100''), (2, ''M98 P200''), (3, ''M30'')],
            main_programs := [''100''], program_calls := [''200'']\<rparr>"
    by (subst check_file_format_eq) (rule example_main_lines)
  have calls: "program_calls ?s2 = [''200'']" and progs: "main_programs ?s2 = [''100'']"
    and errs: "errors ?s2 = []"
    unfolding s2 by (simp_all add: init_def)
  have detect: "auto_detect_and_analyze_subprograms ?an fs f ?s2 = Some (?s2, [])"
    by (simp add: auto_detect_foldl calls unresolved_without_file [OF none])
  have run: "analyze_file (Suc n) fs f init = Some (True, validate_program_structure ?s2)"
    by (simp add: analyze_file_File [of fs f _ n init, OF assms(1)] calls
        unresolved_without_file [OF none] del: analyze_file.simps)
  have warn: "warnings (validate_program_structure ?s2)
      = warnings ?s2 @ [[Txt ''Subprogram P200 called but not defined'']]"
    by (simp add: validate_program_structure_warnings calls progs called_not_defined_def)
  show ?thesis
    using detect run warn
    by (simp add: validate_program_structure_frame calls progs errs del: analyze_file.simps)
qed

text \<open>
  Witness of C5: the file system that holds only \<^verbatim>\<open>job/main.nc\<close>.
\<close>

theorem call_without_file_witness:
  "fs_unresolved ''job/main.nc'' = Some (File [''O100'', ''M98 P200'', ''M30''])
   \<and> list_all (\<lambda>name. \<not> path_exists fs_unresolved (join (main_dir_of ''job/main.nc'') name))
        (possible_names ''200'')
   \<and> map_option (\<lambda>r. (fst r, warnings (snd r), main_programs (snd r)))
        (analyze_file (Suc 0) fs_unresolved ''job/main.nc'' init)
      = Some (True, [[Txt ''Subprogram P200 called but not defined'']], [''100''])"
proof -
  let ?s2 = "process_lines [''O100'', ''M98 P200'', ''M30''] (check_file_format ''job/main.nc'' init)"
  have content: "fs_unresolved ''job/main.nc'' = Some (File [''O100'', ''M98 P200'', ''M30''])"
    by code_simp
  have absent: "list_all
      (\<lambda>name. \<not> path_exists fs_unresolved (join (main_dir_of ''job/main.nc'') name))
      (possible_names ''200'')"
    by code_simp
  then have absent': "\<forall>name \<in> set (possible_names ''200'').
      \<not> path_exists fs_unresolved (join (main_dir_of ''job/main.nc'') name)"
    by (simp only: list_all_iff)
  have before: "warnings ?s2 = []"
    by code_simp
  from call_without_file [OF content absent', of 0]
  have run: "analyze_file (Suc 0) fs_unresolved ''job/main.nc'' init
         = Some (True, validate_program_structure ?s2)"
    and warn: "warnings (validate_program_structure ?s2)
         = warnings ?s2 @ [[Txt ''Subprogram P200 called but not defined'']]"
    and progs: "main_programs (validate_program_structure ?s2) = [''100'']"
    by blast+
  show ?thesis
  proof (intro conjI)
    show "fs_unresolved ''job/main.nc'' = Some (File [''O100'', ''M98 P200'', ''M30''])"
      by (rule content)
    show "list_all
      (\<lambda>name. \<not> path_exists fs_unresolved (join (main_dir_of ''job/main.nc'') name))
      (possible_names ''200'')"
      by (rule absent)
    show "map_option (\<lambda>r. (fst r, warnings (snd r), main_programs (snd r)))
        (analyze_file (Suc 0) fs_unresolved ''job/main.nc'' init)
      = Some (True, [[Txt ''Subprogram P200 called but not defined'']], [''100''])"
      by (simp only: run option.map fst_conv snd_conv warn progs before append_Nil)
  qed
qed

section \<open>Resolution before validation\<close>







section \<open>Nested analyses\<close>



















section \<open>Numbers behind an axis letter\<close>

lemma not_digit_dot [simp]: "\<not> is_digit CHR ''.''"
  by (simp add: is_digit_def)

lemma not_digit_sign [simp]: "\<not> is_digit CHR ''+''" "\<not> is_digit CHR ''-''"
  by (simp_all add: is_digit_def)

lemma takeWhile_all: "list_all P xs \<Longrightarrow> takeWhile P (xs @ ys) = xs @ takeWhile P ys"
  by (induction xs) simp_all

lemma dropWhile_all: "list_all P xs \<Longrightarrow> dropWhile P (xs @ ys) = dropWhile P ys"
  by (induction xs) simp_all

lemma list_all_takeWhile: "list_all P (takeWhile P xs)"
  by (induction xs) simp_all

lemma is_unsigned_decimal_iff:
  "is_unsigned_decimal m \<longleftrightarrow>
     (m \<noteq> [] \<and> list_all is_digit m)
     \<or> (\<exists>ip fp. m = ip @ CHR ''.'' # fp \<and> list_all is_digit ip \<and> fp \<noteq> [] \<and> list_all is_digit fp)"
  (is "?L \<longleftrightarrow> ?D \<or> ?F")
proof
  assume L: ?L
  show "?D \<or> ?F"
  proof (cases "dropWhile is_digit m")
    case Nil
    with L have "takeWhile is_digit m \<noteq> []"
      by (simp add: is_unsigned_decimal_def)
    moreover from Nil have "takeWhile is_digit m = m"
      using takeWhile_dropWhile_id [of is_digit m] by simp
    ultimately have ?D
      using list_all_takeWhile [of is_digit m] by metis
    then show ?thesis ..
  next
    case (Cons c fp)
    with L have c: "c = CHR ''.''" and fp: "fp \<noteq> []" "list_all is_digit fp"
      by (simp_all add: is_unsigned_decimal_def)
    have "m = takeWhile is_digit m @ CHR ''.'' # fp"
      using takeWhile_dropWhile_id [of is_digit m] Cons c by simp
    then have ?F
      using fp list_all_takeWhile [of is_digit m] by blast
    then show ?thesis ..
  qed
next
  assume "?D \<or> ?F"
  then show ?L
  proof
    assume D: ?D
    then have tw: "takeWhile is_digit m = m" and dw: "dropWhile is_digit m = []"
      using takeWhile_all [of is_digit m "[]"] dropWhile_all [of is_digit m "[]"] by simp_all
    show ?L
      unfolding is_unsigned_decimal_def Let_def tw dw using D by simp
  next
    assume ?F
    then obtain ip fp where m: "m = ip @ CHR ''.'' # fp" and ip: "list_all is_digit ip"
      and fp: "fp \<noteq> []" "list_all is_digit fp"
      by blast
    have tw: "takeWhile is_digit m = ip" and dw: "dropWhile is_digit m = CHR ''.'' # fp"
      by (simp_all add: m takeWhile_all [OF ip] dropWhile_all [OF ip])
    show ?L
      unfolding is_unsigned_decimal_def Let_def tw dw using fp by simp
  qed
qed

lemma match_unsigned_sound:
  assumes "match_unsigned s = Some m"
  shows "is_unsigned_decimal m" and "\<exists>r. s = m @ r"
proof -
  let ?ds = "takeWhile is_digit s"
  have ds: "list_all is_digit ?ds" by (rule list_all_takeWhile)
  have split: "s = ?ds @ dropWhile is_digit s" by simp
  have prefix: "\<exists>r. s = ?ds @ r" by (metis takeWhile_dropWhile_id)
  show "is_unsigned_decimal m" and "\<exists>r. s = m @ r"
  proof (atomize (full), cases "dropWhile is_digit s")
    case Nil
    with assms have "?ds \<noteq> []" "m = ?ds"
      by (auto simp: match_unsigned_def Let_def split: if_splits)
    with ds prefix show "is_unsigned_decimal m \<and> (\<exists>r. s = m @ r)"
      unfolding is_unsigned_decimal_iff by metis
  next
    case (Cons c r')
    show "is_unsigned_decimal m \<and> (\<exists>r. s = m @ r)"
    proof (cases "c = CHR ''.'' \<and> takeWhile is_digit r' \<noteq> []")
      case True
      with assms Cons have m: "m = ?ds @ CHR ''.'' # takeWhile is_digit r'"
        by (simp add: match_unsigned_def Let_def)
      have "s = m @ dropWhile is_digit r'"
        using split Cons True by (simp add: m)
      moreover have "is_unsigned_decimal m"
        unfolding is_unsigned_decimal_iff
        using m ds True list_all_takeWhile [of is_digit r'] by blast
      ultimately show ?thesis by blast
    next
      case False
      with assms Cons have "?ds \<noteq> []" "m = ?ds"
        by (auto simp: match_unsigned_def Let_def split: if_splits)
      with ds prefix show ?thesis
        unfolding is_unsigned_decimal_iff by metis
    qed
  qed
qed

lemma match_unsigned_digits:
  assumes "takeWhile is_digit s \<noteq> []"
  shows "\<exists>m. match_unsigned s = Some m \<and> length (takeWhile is_digit s) \<le> length m"
  using assms unfolding match_unsigned_def Let_def by (auto split: list.splits)

lemma match_unsigned_complete:
  assumes "is_unsigned_decimal t"
  shows "\<exists>m. match_unsigned (t @ u) = Some m \<and> length t \<le> length m"
proof -
  from assms consider
    (digits) "t \<noteq> []" "list_all is_digit t"
    | (fraction) ip fp where "t = ip @ CHR ''.'' # fp" "list_all is_digit ip" "fp \<noteq> []"
        "list_all is_digit fp"
    unfolding is_unsigned_decimal_iff by blast
  then show ?thesis
  proof cases
    case digits
    let ?ds = "takeWhile is_digit (t @ u)"
    have ds: "?ds = t @ takeWhile is_digit u"
      using digits(2) by (rule takeWhile_all)
    then have nonempty: "?ds \<noteq> []" and longer: "length t \<le> length ?ds"
      using digits(1) by simp_all
    from match_unsigned_digits [OF nonempty]
    obtain m where "match_unsigned (t @ u) = Some m" "length ?ds \<le> length m"
      by blast
    with longer show ?thesis
      by (metis le_trans)
  next
    case fraction
    have tw: "takeWhile is_digit (t @ u) = ip"
      and dw: "dropWhile is_digit (t @ u) = CHR ''.'' # (fp @ u)"
      by (simp_all add: fraction(1) takeWhile_all [OF fraction(2)] dropWhile_all [OF fraction(2)])
    have fd: "takeWhile is_digit (fp @ u) = fp @ takeWhile is_digit u"
      using fraction(4) by (rule takeWhile_all)
    have "match_unsigned (t @ u) = Some (ip @ CHR ''.'' # fp @ takeWhile is_digit u)"
      using fraction(3) by (simp add: match_unsigned_def Let_def tw dw fd)
    then show ?thesis
      by (simp add: fraction(1))
  qed
qed

lemma is_unsigned_decimal_no_sign:
  assumes "is_unsigned_decimal (c # t)"
  shows "c \<noteq> CHR ''+''" and "c \<noteq> CHR ''-''"
proof -
  from assms have "is_digit c \<or> c = CHR ''.''"
    unfolding is_unsigned_decimal_iff
    by (auto simp: Cons_eq_append_conv)
  then show "c \<noteq> CHR ''+''" and "c \<noteq> CHR ''-''"
    by auto
qed

lemma match_signed_sound:
  assumes "match_signed s = Some m"
  shows "is_signed_decimal m" and "\<exists>r. s = m @ r"
proof -
  show "is_signed_decimal m" and "\<exists>r. s = m @ r"
  proof (atomize (full), cases s)
    case Nil
    with assms show "is_signed_decimal m \<and> (\<exists>r. s = m @ r)"
      by (simp add: match_signed_def)
  next
    case (Cons c t)
    show "is_signed_decimal m \<and> (\<exists>r. s = m @ r)"
    proof (cases "c = CHR ''+'' \<or> c = CHR ''-''")
      case True
      with assms Cons obtain m' where m': "match_unsigned t = Some m'" and m: "m = c # m'"
        by (auto simp: match_signed_def)
      from match_unsigned_sound [OF m'] show ?thesis
        using True Cons m by (auto simp: is_signed_decimal_def)
    next
      case False
      with assms Cons have un: "match_unsigned s = Some m"
        by (simp add: match_signed_def)
      from match_unsigned_sound [OF un] obtain r where u: "is_unsigned_decimal m" and r: "s = m @ r"
        by blast
      from u have "m \<noteq> []"
        by (auto simp: is_unsigned_decimal_iff)
      then obtain c' m' where m: "m = c' # m'"
        by (cases m) auto
      with r Cons have "c' = c" by simp
      with False u m have "is_signed_decimal m"
        by (simp add: is_signed_decimal_def)
      with r show ?thesis by blast
    qed
  qed
qed

lemma match_signed_complete:
  assumes "is_signed_decimal t"
  shows "\<exists>m. match_signed (t @ u) = Some m \<and> length t \<le> length m"
proof (cases t)
  case Nil
  with assms show ?thesis by (simp add: is_signed_decimal_def)
next
  case (Cons c t')
  show ?thesis
  proof (cases "c = CHR ''+'' \<or> c = CHR ''-''")
    case True
    with assms Cons have "is_unsigned_decimal t'"
      by (auto simp: is_signed_decimal_def)
    from match_unsigned_complete [OF this, of u]
    obtain m where "match_unsigned (t' @ u) = Some m" "length t' \<le> length m"
      by blast
    with True Cons show ?thesis
      by (auto simp: match_signed_def)
  next
    case False
    with assms Cons have "is_unsigned_decimal t"
      by (simp add: is_signed_decimal_def)
    from match_unsigned_complete [OF this, of u]
    obtain m where "match_unsigned (t @ u) = Some m" "length t \<le> length m"
      by blast
    with False Cons show ?thesis
      by (auto simp: match_signed_def)
  qed
qed

lemma match_signed_none:
  assumes "\<not> number_follows s"
  shows "match_signed s = None"
proof (rule ccontr)
  assume "match_signed s \<noteq> None"
  then obtain m where m: "match_signed s = Some m" by auto
  from match_signed_sound [OF m] obtain r where "is_signed_decimal m" "s = m @ r"
    by blast
  then have "is_signed_decimal (take (length m) s)" "length m \<le> length s"
    by simp_all
  with assms show False
    unfolding number_follows_def by blast
qed

lemma match_signed_maximal:
  assumes num: "is_signed_decimal num"
    and maximal: "\<forall>k. 0 < k \<and> k \<le> length rest \<longrightarrow> \<not> is_signed_decimal (num @ take k rest)"
  shows "match_signed (num @ rest) = Some num"
proof -
  from match_signed_complete [OF num, of rest]
  obtain m where m: "match_signed (num @ rest) = Some m" and len: "length num \<le> length m"
    by blast
  from match_signed_sound [OF m] obtain r where dec: "is_signed_decimal m"
    and r: "num @ rest = m @ r"
    by blast
  let ?k = "length m - length num"
  have "m = take (length m) (num @ rest)"
    using r by simp
  also have "\<dots> = num @ take ?k rest"
    using len by simp
  finally have m_eq: "m = num @ take ?k rest" .
  have "?k \<le> length rest"
    using r len by (metis add_diff_cancel_left' diff_le_mono length_append le_add1)
  with maximal dec m_eq have "\<not> 0 < ?k"
    by metis
  with m_eq have "m = num" by simp
  with m show ?thesis by simp
qed

lemma search_axis_leftmost:
  assumes "\<forall>i < length pre. pre ! i = a \<longrightarrow> \<not> number_follows (drop (Suc i) (pre @ a # t))"
  shows "search_axis a (pre @ a # t) = search_axis a (a # t)"
  using assms
proof (induction pre)
  case Nil
  show ?case by simp
next
  case (Cons c pre)
  have shifted: "\<forall>i < length pre. pre ! i = a \<longrightarrow> \<not> number_follows (drop (Suc i) (pre @ a # t))"
  proof (intro allI impI)
    fix i assume "i < length pre" "pre ! i = a"
    with Cons.prems [rule_format, of "Suc i"]
    show "\<not> number_follows (drop (Suc i) (pre @ a # t))" by simp
  qed
  have "search_axis a ((c # pre) @ a # t) = search_axis a (pre @ a # t)"
  proof (cases "c = a")
    case True
    with Cons.prems [rule_format, of 0] have "\<not> number_follows (pre @ a # t)"
      by simp
    then have "match_signed (pre @ a # t) = None"
      by (rule match_signed_none)
    with True show ?thesis by simp
  next
    case False
    then show ?thesis by simp
  qed
  with Cons.IH [OF shifted] show ?case by simp
qed

lemma search_axis_absent: "a \<notin> set s \<Longrightarrow> search_axis a s = None"
  by (induction s) auto

lemma unsigned_decimal_chars:
  "is_unsigned_decimal m \<Longrightarrow> x \<in> set m \<Longrightarrow> is_digit x \<or> x = CHR ''.''"
  by (auto simp: is_unsigned_decimal_iff list_all_iff)

lemma signed_decimal_chars:
  assumes "is_signed_decimal m" and "x \<in> set m"
  shows "is_digit x \<or> x \<in> set ''.+-''"
proof (cases m)
  case Nil
  with assms show ?thesis by simp
next
  case (Cons c t)
  show ?thesis
  proof (cases "c = CHR ''+'' \<or> c = CHR ''-''")
    case True
    with assms Cons have "is_unsigned_decimal t" and "x = c \<or> x \<in> set t"
      by (auto simp: is_signed_decimal_def)
    with True show ?thesis
      using unsigned_decimal_chars [of t x] by auto
  next
    case False
    with assms Cons have "is_unsigned_decimal m"
      by (simp add: is_signed_decimal_def)
    with assms(2) show ?thesis
      using unsigned_decimal_chars [of m x] by auto
  qed
qed

lemma maximal_if_delimited:
  assumes "rest = [] \<or> (\<not> is_digit (hd rest) \<and> hd rest \<notin> set ''.+-'')"
  shows "\<forall>k. 0 < k \<and> k \<le> length rest \<longrightarrow> \<not> is_signed_decimal (num @ take k rest)"
proof (intro allI impI notI)
  fix k assume k: "0 < k \<and> k \<le> length rest" and dec: "is_signed_decimal (num @ take k rest)"
  then have "rest \<noteq> []" by auto
  then obtain c t where rest: "rest = c # t" by (cases rest) auto
  with k have "c \<in> set (num @ take k rest)"
    by (cases k) simp_all
  with dec have "is_digit c \<or> c \<in> set ''.+-''"
    by (rule signed_decimal_chars)
  with assms rest show False by simp
qed

lemma parse_coordinate_leftmost:
  assumes "upper line = pre @ a # num @ rest"
    and "is_signed_decimal num"
    and "\<forall>k. 0 < k \<and> k \<le> length rest \<longrightarrow> \<not> is_signed_decimal (num @ take k rest)"
    and "\<forall>i < length pre. pre ! i = a \<longrightarrow> \<not> number_follows (drop (Suc i) (upper line))"
  shows "parse_coordinate line a = Some (float_py num)"
proof -
  have "search_axis a (pre @ a # num @ rest) = search_axis a (a # num @ rest)"
    using assms(4) unfolding assms(1) by (rule search_axis_leftmost)
  also have "\<dots> = Some num"
    using match_signed_maximal [OF assms(2,3)] by simp
  finally show ?thesis
    by (simp add: parse_coordinate_def assms(1))
qed

lemma parse_coordinate_absent:
  "a \<notin> set (upper line) \<Longrightarrow> parse_coordinate line a = None"
  by (simp add: parse_coordinate_def search_axis_absent)

lemma check_coordinates_position:
  "current_x (check_coordinates l s)
     = (case parse_coordinate l CHR ''X'' of Some v \<Rightarrow> v | None \<Rightarrow> current_x s)"
  "current_y (check_coordinates l s)
     = (case parse_coordinate l CHR ''Y'' of Some v \<Rightarrow> v | None \<Rightarrow> current_y s)"
  "current_z (check_coordinates l s)
     = (case parse_coordinate l CHR ''Z'' of Some v \<Rightarrow> v | None \<Rightarrow> current_z s)"
  by (simp_all add: check_coordinates_def Let_def split: option.splits)

lemma axis_value_check_coordinates:
  assumes "a \<in> set ''XYZ''"
  shows "axis_value a (check_coordinates l s)
     = (case parse_coordinate l a of Some v \<Rightarrow> v | None \<Rightarrow> axis_value a s)"
  using assms by (auto simp: axis_value_def check_coordinates_position split: option.splits)

lemma axis_value_process_line:
  assumes "a \<in> set ''XYZ''"
  shows "axis_value a (process_line (n, line) s)
     = (if mentions_axis (strip line)
        then (case parse_coordinate (strip line) a of Some v \<Rightarrow> v | None \<Rightarrow> axis_value a s)
        else axis_value a s)"
proof -
  have frame: "axis_value a (check_feed_rate l t) = axis_value a t"
    "axis_value a (snd (check_syntax l t)) = axis_value a t"
    "axis_value a (t\<lparr>commands := cs\<rparr>) = axis_value a t" for l t cs
    by (simp_all add: axis_value_def check_feed_rate_frame check_syntax_frame)
  have blank: "\<not> mentions_axis []"
    by (simp add: mentions_axis_def upper_def)
  show ?thesis
    using blank
    by (auto simp: process_line_def Let_def frame axis_value_check_coordinates [OF assms]
        split: option.splits)
qed

text \<open>
  Claim C1 (axis words), as stated: whenever a processed line contains an axis letter
  followed by a well-formed number, the field of that axis equals that number. The line
  \<^verbatim>\<open>X1 X2\<close> contains the letter X followed by the number 2, and the field is 1 after the
  line: the pattern is searched from the left and its first match is taken.
\<close>

theorem axis_word_counterexample:
  "upper (strip ''X1 X2'') = ''X1 '' @ CHR ''X'' # ''2'' @ []
   \<and> is_signed_decimal ''2''
   \<and> float_py ''2'' = 2
   \<and> current_x (process_line (1, ''X1 X2'') init) = 1
   \<and> current_x (process_line (1, ''X1 X2'') init) \<noteq> float_py ''2''"
  by code_simp

text \<open>
  Claim C1 (axis words), as amended. Let the trimmed, upper-cased line hold an axis letter
  X, Y or Z that is directly followed by a well-formed signed decimal number, which is not
  the beginning of a longer one, and let no earlier occurrence of that letter in the line
  be directly followed by a number. Then after the line the field of that axis is the value
  of the number. The field of every axis whose letter is not on the line is left as it
  was. From the initial position, the lines \<^verbatim>\<open>X10 Y5\<close> and \<^verbatim>\<open>X12\<close> lead to the
  position (12, 5, 0).
\<close>

theorem axis_word_sets_position:
  assumes "a \<in> set ''XYZ''"
    and "upper (strip line) = pre @ a # num @ rest"
    and "is_signed_decimal num"
    and "\<forall>k. 0 < k \<and> k \<le> length rest \<longrightarrow> \<not> is_signed_decimal (num @ take k rest)"
    and "\<forall>i < length pre. pre ! i = a \<longrightarrow> \<not> number_follows (drop (Suc i) (upper (strip line)))"
  shows "axis_value a (process_line (n, line) self) = float_py num
         \<and> (\<forall>b \<in> set ''XYZ''. b \<notin> set (upper (strip line))
               \<longrightarrow> axis_value b (process_line (n, line) self) = axis_value b self)
         \<and> (let s = process_lines [''X10 Y5'', ''X12''] init
            in (current_x s, current_y s, current_z s) = (12, 5, 0))"
proof (intro conjI ballI impI)
  have "a \<in> set (upper (strip line))"
    by (simp add: assms(2))
  with assms(1) have "mentions_axis (strip line)"
    by (auto simp: mentions_axis_def contains_single)
  moreover have "parse_coordinate (strip line) a = Some (float_py num)"
    using assms(2-5) by (rule parse_coordinate_leftmost)
  ultimately show "axis_value a (process_line (n, line) self) = float_py num"
    by (simp add: axis_value_process_line [OF assms(1)])
next
  fix b assume "b \<in> set ''XYZ''" and "b \<notin> set (upper (strip line))"
  then show "axis_value b (process_line (n, line) self) = axis_value b self"
    by (simp add: axis_value_process_line parse_coordinate_absent)
next
  show "let s = process_lines [''X10 Y5'', ''X12''] init
        in (current_x s, current_y s, current_z s) = (12, 5, 0)"
    by code_simp
qed

text \<open>
  Witness of C1: on the line \<^verbatim>\<open>g1 x10 y5\<close> the letter X is followed by the number 10,
  which ends at a blank, and there is no X before it; the letter Z is not on the line.
  From a position with Z at 7 the line leads to X at 10 and leaves Z at 7.
\<close>

theorem axis_word_sets_position_witness:
  "upper (strip ''g1 x10 y5'') = ''G1 '' @ CHR ''X'' # ''10'' @ '' Y5''
   \<and> is_signed_decimal ''10''
   \<and> CHR ''Z'' \<notin> set (upper (strip ''g1 x10 y5''))
   \<and> axis_value CHR ''X'' (process_line (1, ''g1 x10 y5'') (init\<lparr>current_z := 7\<rparr>)) = 10
   \<and> axis_value CHR ''Z'' (process_line (1, ''g1 x10 y5'') (init\<lparr>current_z := 7\<rparr>)) = 7"
proof -
  let ?line = "''g1 x10 y5''"
  let ?self = "init\<lparr>current_z := 7\<rparr>"
  have axis: "CHR ''X'' \<in> set ''XYZ''" by simp
  have shape: "upper (strip ?line) = ''G1 '' @ CHR ''X'' # ''10'' @ '' Y5''"
    by code_simp
  have num: "is_signed_decimal ''10''"
    by code_simp
  have maximal: "\<forall>k. 0 < k \<and> k \<le> length '' Y5'' \<longrightarrow> \<not> is_signed_decimal (''10'' @ take k '' Y5'')"
    by (rule maximal_if_delimited) (simp add: is_digit_def)
  have leftmost: "\<forall>i < length ''G1 ''. ''G1 '' ! i = CHR ''X''
      \<longrightarrow> \<not> number_follows (drop (Suc i) (upper (strip ?line)))"
  proof (intro allI impI)
    fix i assume "i < length ''G1 ''" and "''G1 '' ! i = CHR ''X''"
    then have "CHR ''X'' \<in> set ''G1 ''"
      by (metis nth_mem)
    then show "\<not> number_follows (drop (Suc i) (upper (strip ?line)))"
      by simp
  qed
  have absent: "CHR ''Z'' \<notin> set (upper (strip ?line))"
    by code_simp
  have ten: "float_py ''10'' = 10"
    by code_simp
  have before: "axis_value CHR ''Z'' ?self = 7"
    by (simp add: axis_value_def)
  from axis_word_sets_position [OF axis shape num maximal leftmost, of 1 ?self]
  have x: "axis_value CHR ''X'' (process_line (1, ?line) ?self) = float_py ''10''"
    and rest: "\<forall>b \<in> set ''XYZ''. b \<notin> set (upper (strip ?line))
        \<longrightarrow> axis_value b (process_line (1, ?line) ?self) = axis_value b ?self"
    by blast+
  from rest absent have z: "axis_value CHR ''Z'' (process_line (1, ?line) ?self) = 7"
    by (simp add: before)
  show ?thesis
    using shape num absent x z by (simp only: ten) blast
qed

section \<open>What holds for ignorable lines and for the registries\<close>

lemma upper_char_comment:
  "upper_char c = CHR '';'' \<longleftrightarrow> c = CHR '';''"
  "upper_char c = CHR ''('' \<longleftrightarrow> c = CHR ''(''"
  by (simp_all add: upper_char_def)

lemma startswith_upper_comment:
  "startswith (upper s) '';'' = startswith s '';''"
  "startswith (upper s) ''('' = startswith s ''(''"
  by (cases s; simp add: startswith_def upper_def upper_char_comment)+

lemma check_syntax_ignorable:
  assumes "is_ignorable line"
  shows "check_syntax line self = (True, self)"
proof -
  have "upper (strip line) = [] \<or> startswith (upper (strip line)) '';''
      \<or> startswith (upper (strip line)) ''(''"
    using assms unfolding is_ignorable_def startswith_upper_comment by (simp add: upper_def)
  then show ?thesis
    by (simp add: check_syntax_def Let_def)
qed

lemma process_line_blank:
  "strip line = [] \<Longrightarrow> process_line (n, line) self = self"
  by (simp add: process_line_def)

lemma dropWhile_snoc_keeps:
  "\<not> P x \<Longrightarrow> \<exists>ys. dropWhile P (zs @ [x]) = ys @ [x]"
  by (induction zs) auto

lemma strip_idem: "strip (strip s) = strip s"
proof -
  let ?t = "dropWhile is_space s"
  let ?u = "rev (dropWhile is_space (rev ?t))"
  have head: "dropWhile is_space ?u = ?u"
  proof (cases ?t)
    case Nil
    show ?thesis unfolding Nil by simp
  next
    case (Cons x t')
    then have x: "\<not> is_space x"
      using hd_dropWhile [of is_space s] by (metis list.distinct(1) list.sel(1))
    from dropWhile_snoc_keeps [of is_space x "rev t'", OF x]
    obtain ys where "dropWhile is_space (rev t' @ [x]) = ys @ [x]" ..
    then have "?u = x # rev ys"
      by (simp add: Cons)
    with x show ?thesis by simp
  qed
  have "strip (strip s) = rev (dropWhile is_space (rev (dropWhile is_space ?u)))"
    by (simp add: strip_def)
  also have "\<dots> = rev (dropWhile is_space (rev ?u))"
    by (simp only: head)
  also have "\<dots> = ?u"
    by (simp add: dropWhile_idem)
  finally show ?thesis
    by (simp add: strip_def)
qed

lemma process_line_ignorable:
  assumes "is_ignorable line"
  shows "process_line (n, line) self =
     (if strip line = [] then self
      else check_feed_rate (strip line)
             (if mentions_axis (strip line)
              then check_coordinates (strip line)
                     (self\<lparr>commands := commands self @ [(n, strip line)]\<rparr>)
              else self\<lparr>commands := commands self @ [(n, strip line)]\<rparr>))"
proof -
  have "is_ignorable (strip line)"
    using assms by (simp add: is_ignorable_def strip_idem)
  then show ?thesis
    by (simp add: process_line_def Let_def check_syntax_ignorable)
qed

lemma check_program_structure_distinct:
  "distinct (main_programs s) \<Longrightarrow> distinct (main_programs (check_program_structure l s))"
  by (simp add: check_program_structure_def Let_def split: option.splits)

lemma process_line_distinct:
  assumes "distinct (main_programs s)"
  shows "distinct (main_programs (process_line nl s))"
proof -
  have "distinct (main_programs (snd (check_syntax l t)))" if "distinct (main_programs t)" for l t
    using that by (simp add: check_syntax_def Let_def check_program_structure_distinct)
  then show ?thesis
    using assms
    by (simp add: process_line_def Let_def check_feed_rate_frame check_coordinates_frame)
qed

lemma process_lines_distinct:
  "distinct (main_programs s) \<Longrightarrow> distinct (main_programs (process_lines lines s))"
proof -
  have "distinct (main_programs (foldl (\<lambda>s nl. process_line nl s) s nls))"
    if "distinct (main_programs s)" for nls
    using that by (induction nls arbitrary: s) (simp_all add: process_line_distinct)
  then show "distinct (main_programs s) \<Longrightarrow> distinct (main_programs (process_lines lines s))"
    by (simp add: process_lines_def)
qed

end
